theory Spec2Isabelle
  imports Main "HOL-Library.Sublist"
begin

section \<open>Python text primitives\<close>

text \<open>
  The scrapers work on Python \<open>str\<close> values. A text is modelled as a \<open>string\<close> whose
  characters are read as the code points 0..255 (Latin-1), one \<open>char\<close> per code point, so
  that \<open>length\<close> and \<open>take\<close> count what Python's \<open>len\<close> and slicing count. Code points
  above 255 are outside the model.
\<close>

datatype pyval = PyNone | PyStr string

text \<open>The exceptions of the model, all subclasses of Python's \<open>Exception\<close>.\<close>

datatype py_error =
    AttributeError
  | KeyError string
  | ValueError string
  | IllegalCharacterError string
  | RequestException string
  | OSError string

text \<open>Truthiness as \<open>if not job_description\<close> tests it: \<open>None\<close> and \<open>""\<close> are falsy.\<close>

fun truthy :: "pyval \<Rightarrow> bool" where
  "truthy PyNone = False"
| "truthy (PyStr s) = (s \<noteq> [])"

text \<open>
  \<open>str.lower\<close> on one code point below 256: \<open>A..Z\<close> and the upper-case letters
  \<open>0xC0..0xDE\<close> (without the multiplication sign \<open>0xD7\<close>) move up by 32.
\<close>

definition lower_char :: "char \<Rightarrow> char" where
  "lower_char c =
     (let n = (of_char c :: nat)
      in if (65 \<le> n \<and> n \<le> 90) \<or> (192 \<le> n \<and> n \<le> 222 \<and> n \<noteq> 215)
         then char_of (n + 32) else c)"

definition str_lower :: "string \<Rightarrow> string" where
  "str_lower s = map lower_char s"

text \<open>The method call \<open>job_description.lower()\<close>: \<open>None\<close> has no such attribute.\<close>

fun py_lower :: "pyval \<Rightarrow> py_error + string" where
  "py_lower PyNone = Inl AttributeError"
| "py_lower (PyStr s) = Inr (str_lower s)"

text \<open>The operator \<open>needle in haystack\<close> on two strings: substring membership.\<close>

fun str_in :: "string \<Rightarrow> string \<Rightarrow> bool" where
  "str_in n [] = (n = [])"
| "str_in n (c # cs) = (prefix n (c # cs) \<or> str_in n cs)"

text \<open>\<open>sep.join(xs)\<close>.\<close>

fun join :: "string \<Rightarrow> string list \<Rightarrow> string" where
  "join sep [] = []"
| "join sep [x] = x"
| "join sep (x # y # ys) = x @ sep @ join sep (y # ys)"

section \<open>Regular expressions as the backtracking matcher runs them\<close>

text \<open>
  The five experience patterns use literal characters, the classes \<open>\d\<close> and \<open>\s\<close>,
  greedy \<open>*\<close>, \<open>+\<close> on a single class, greedy \<open>?\<close>, sequence and alternation.
  All are compiled with \<open>re.IGNORECASE\<close>: a literal matches a text character when both
  have the same lower-case form. Above code point 255, outside the model, Python also
  lets \<open>i\<close> match the dotless i (U+0131) and \<open>s\<close> the long s (U+017F).
\<close>

datatype cclass = Digit | Space | Lit char

definition is_digit :: "char \<Rightarrow> bool" where
  "is_digit c = (let n = (of_char c :: nat) in 48 \<le> n \<and> n \<le> 57)"

definition is_space :: "char \<Rightarrow> bool" where
  "is_space c =
     (let n = (of_char c :: nat)
      in (9 \<le> n \<and> n \<le> 13) \<or> (28 \<le> n \<and> n \<le> 32) \<or> n = 133 \<or> n = 160)"

fun cmatch :: "cclass \<Rightarrow> char \<Rightarrow> bool" where
  "cmatch Digit x = is_digit x"
| "cmatch Space x = is_space x"
| "cmatch (Lit c) x = (lower_char x = lower_char c)"

datatype regex =
    One cclass
  | Str string
  | Star cclass
  | Plus cclass
  | Opt regex
  | Seq regex regex
  | Alt regex regex

text \<open>A literal run \<open>w\<close> at the front of \<open>s\<close>, character by character under IGNORECASE.\<close>

fun ci_prefix :: "string \<Rightarrow> string \<Rightarrow> bool" where
  "ci_prefix [] s = True"
| "ci_prefix (c # w) [] = False"
| "ci_prefix (c # w) (x # s) = (cmatch (Lit c) x \<and> ci_prefix w s)"

text \<open>
  \<open>star_rests c s\<close>: what is left of \<open>s\<close> after each way a greedy \<open>c*\<close> can match at its
  front, longest match first (the order in which the engine gives characters back).
\<close>

fun star_rests :: "cclass \<Rightarrow> string \<Rightarrow> string list" where
  "star_rests c [] = [[]]"
| "star_rests c (x # xs) = (if cmatch c x then star_rests c xs @ [x # xs] else [x # xs])"

text \<open>
  \<open>rests r s\<close>: the remainders of \<open>s\<close> after every way \<open>r\<close> matches at the front of \<open>s\<close>,
  in the order the backtracking engine tries them; the engine reports the first.
\<close>

fun rests :: "regex \<Rightarrow> string \<Rightarrow> string list" where
  "rests (One c) s = (case s of [] \<Rightarrow> [] | x # xs \<Rightarrow> if cmatch c x then [xs] else [])"
| "rests (Str w) s = (if ci_prefix w s then [drop (length w) s] else [])"
| "rests (Star c) s = star_rests c s"
| "rests (Plus c) s = (case s of [] \<Rightarrow> [] | x # xs \<Rightarrow> if cmatch c x then star_rests c xs else [])"
| "rests (Opt r) s = rests r s @ [s]"
| "rests (Seq r1 r2) s = concat (map (rests r2) (rests r1 s))"
| "rests (Alt r1 r2) s = rests r1 s @ rests r2 s"

text \<open>The match starting exactly at the front of \<open>s\<close>, if there is one.\<close>

definition match_here :: "regex \<Rightarrow> string \<Rightarrow> string option" where
  "match_here r s =
     (case rests r s of [] \<Rightarrow> None | rest # _ \<Rightarrow> Some (take (length s - length rest) s))"

text \<open>
  \<open>re.findall\<close> for a pattern whose only group is the whole pattern: the non-overlapping
  matches from left to right. The counter is the number of characters of the previous
  match still to be stepped over; after an empty match the scan moves on by one.
\<close>

fun findall_from :: "regex \<Rightarrow> nat \<Rightarrow> string \<Rightarrow> string list" where
  "findall_from r (Suc k) (c # cs) = findall_from r k cs"
| "findall_from r (Suc k) [] = []"
| "findall_from r 0 [] = (case match_here r [] of None \<Rightarrow> [] | Some m \<Rightarrow> [m])"
| "findall_from r 0 (c # cs) =
     (case match_here r (c # cs) of
        None \<Rightarrow> findall_from r 0 cs
      | Some m \<Rightarrow> m # findall_from r (length m - 1) cs)"

definition findall :: "regex \<Rightarrow> string \<Rightarrow> string list" where
  "findall r s = findall_from r 0 s"

text \<open>
  Patterns that cannot consume a digit: the part of the years pattern after its leading
  \<open>\d+\<close> is of this kind.
\<close>

fun class_digit_free :: "cclass \<Rightarrow> bool" where
  "class_digit_free Digit = False"
| "class_digit_free Space = True"
| "class_digit_free (Lit c) = (\<not> is_digit c)"

fun digit_free :: "regex \<Rightarrow> bool" where
  "digit_free (One c) = class_digit_free c"
| "digit_free (Str w) = list_all (\<lambda>c. \<not> is_digit c) w"
| "digit_free (Star c) = class_digit_free c"
| "digit_free (Plus c) = class_digit_free c"
| "digit_free (Opt r) = digit_free r"
| "digit_free (Seq r1 r2) = (digit_free r1 \<and> digit_free r2)"
| "digit_free (Alt r1 r2) = (digit_free r1 \<and> digit_free r2)"

section \<open>The field extractor\<close>

text \<open>
  The loop \<open>for pattern in experience_patterns\<close>: the first pattern with a match gives
  its first match and the loop breaks; with no match at all the initial \<open>""\<close> stays.
\<close>

fun first_experience :: "regex list \<Rightarrow> string \<Rightarrow> string" where
  "first_experience [] d = []"
| "first_experience (p # ps) d =
     (case findall p d of [] \<Rightarrow> first_experience ps d | m # _ \<Rightarrow> m)"

text \<open>The loop \<open>for skill in skill_keywords\<close>, appending to \<open>found_skills\<close>.\<close>

fun collect_skills :: "string list \<Rightarrow> string \<Rightarrow> string list \<Rightarrow> string list" where
  "collect_skills [] d found = found"
| "collect_skills (skill # rest) d found =
     collect_skills rest d (if str_in (str_lower skill) d then found @ [skill] else found)"

definition years_tail :: regex where
  \<comment> \<open>\<open>\+?\s*years?\s*(?:of\s*)?experience\<close>\<close>
  "years_tail =
     Seq (Opt (One (Lit CHR ''+''))) (Seq (Star Space)
       (Seq (Str ''year'') (Seq (Opt (One (Lit CHR ''s''))) (Seq (Star Space)
         (Seq (Opt (Seq (Str ''of'') (Star Space))) (Str ''experience''))))))"

definition pat_years_experience :: regex where
  \<comment> \<open>\<open>(\d+\+?\s*years?\s*(?:of\s*)?experience)\<close>\<close>
  "pat_years_experience = Seq (Plus Digit) years_tail"

definition pat_minimum_years :: regex where
  \<comment> \<open>\<open>(minimum\s*\d+\s*years?)\<close>\<close>
  "pat_minimum_years =
     Seq (Str ''minimum'') (Seq (Star Space) (Seq (Plus Digit) (Seq (Star Space)
       (Seq (Str ''year'') (Opt (One (Lit CHR ''s'')))))))"

definition pat_range_years :: regex where
  \<comment> \<open>\<open>(\d+\s*to\s*\d+\s*years?)\<close>\<close>
  "pat_range_years =
     Seq (Plus Digit) (Seq (Star Space) (Seq (Str ''to'') (Seq (Star Space)
       (Seq (Plus Digit) (Seq (Star Space) (Seq (Str ''year'') (Opt (One (Lit CHR ''s'')))))))))"

definition pat_entry_level :: regex where
  \<comment> \<open>\<open>entry\s*level\<close>\<close>
  "pat_entry_level = Seq (Str ''entry'') (Seq (Star Space) (Str ''level''))"

definition pat_seniority_github :: regex where
  \<comment> \<open>\<open>(entry\s*level|junior|senior|principal|lead)\<close>\<close>
  "pat_seniority_github =
     Alt pat_entry_level (Alt (Str ''junior'') (Alt (Str ''senior'')
       (Alt (Str ''principal'') (Str ''lead''))))"

definition pat_seniority_microsoft :: regex where
  \<comment> \<open>\<open>(entry\s*level|junior|senior|principal)\<close>\<close>
  "pat_seniority_microsoft =
     Alt pat_entry_level (Alt (Str ''junior'') (Alt (Str ''senior'') (Str ''principal'')))"

definition pat_degree :: regex where
  \<comment> \<open>\<open>(bachelor|master|phd|degree)\<close>\<close>
  "pat_degree = Alt (Str ''bachelor'') (Alt (Str ''master'') (Alt (Str ''phd'') (Str ''degree'')))"

definition experience_patterns_github :: "regex list" where
  "experience_patterns_github =
     [pat_years_experience, pat_minimum_years, pat_range_years, pat_seniority_github, pat_degree]"

definition experience_patterns_microsoft :: "regex list" where
  "experience_patterns_microsoft =
     [pat_years_experience, pat_minimum_years, pat_range_years, pat_seniority_microsoft,
      pat_degree]"

definition skill_keywords_github :: "string list" where
  "skill_keywords_github =
     [''python'', ''java'', ''javascript'', ''typescript'', ''go'', ''rust'', ''c#'', ''c++'',
      ''sql'', ''html'', ''css'', ''react'', ''vue'', ''angular'', ''node.js'', ''docker'',
      ''kubernetes'', ''aws'', ''azure'', ''gcp'', ''git'', ''github'', ''linux'', ''bash'',
      ''machine learning'', ''ai'', ''data science'', ''analytics'', ''cloud'',
      ''agile'', ''scrum'', ''devops'', ''ci/cd'', ''terraform'', ''ansible'']"

definition skill_keywords_microsoft :: "string list" where
  "skill_keywords_microsoft =
     [''python'', ''java'', ''javascript'', ''c#'', ''c++'', ''sql'', ''azure'', ''aws'',
      ''react'', ''angular'', ''node.js'', ''kubernetes'', ''docker'', ''git'',
      ''machine learning'', ''ai'', ''data science'', ''analytics'', ''cloud'',
      ''agile'', ''scrum'', ''devops'', ''ci/cd'', ''tensorflow'', ''pytorch'']"

text \<open>\<open>found_skills[:10]\<close>, the list that is joined into the skills cell.\<close>

definition top_skills :: "string list \<Rightarrow> string \<Rightarrow> string list" where
  "top_skills keywords desc_lower = take 10 (collect_skills keywords desc_lower [])"

text \<open>
  The skill inference in the specification's words: the vocabulary entries that occur in
  the lower-cased text, in the vocabulary's order, the first 10 of them, joined with
  \<open>", "\<close>.
\<close>

definition spec_skill_list :: "string list \<Rightarrow> string \<Rightarrow> string list" where
  "spec_skill_list vocabulary text =
     take 10 (filter (\<lambda>entry. sublist entry (str_lower text)) vocabulary)"

definition spec_skills :: "string list \<Rightarrow> string \<Rightarrow> string" where
  "spec_skills vocabulary text = join '', '' (spec_skill_list vocabulary text)"

text \<open>\<open>extract_experience_and_skills\<close> of \<open>scrape_jobs_github.py\<close>.\<close>

definition extract_experience_and_skills_github :: "pyval \<Rightarrow> py_error + (string \<times> string)" where
  "extract_experience_and_skills_github job_description =
     (if \<not> truthy job_description then Inr ([], [])
      else case py_lower job_description of
             Inl e \<Rightarrow> Inl e
           | Inr desc_lower \<Rightarrow>
               Inr (first_experience experience_patterns_github desc_lower,
                    join '', '' (top_skills skill_keywords_github desc_lower)))"

text \<open>
  \<open>extract_experience_and_skills\<close> of \<open>scrape_microsoft_jobs.py\<close>; its unused
  \<open>lines = job_description.split('\n')\<close> has no effect on the result.
\<close>

definition extract_experience_and_skills_microsoft :: "pyval \<Rightarrow> py_error + (string \<times> string)" where
  "extract_experience_and_skills_microsoft job_description =
     (if \<not> truthy job_description then Inr ([], [])
      else case py_lower job_description of
             Inl e \<Rightarrow> Inl e
           | Inr desc_lower \<Rightarrow>
               Inr (first_experience experience_patterns_microsoft desc_lower,
                    join '', '' (top_skills skill_keywords_microsoft desc_lower)))"

section \<open>Job detail pages\<close>

text \<open>
  What the network and the HTML parser give \<open>get_job_detail\<close>. A parsed page answers,
  for a CSS selector, with the stripped text of the first element the selector finds
  (\<open>soup.select_one(selector)\<close>, then \<open>get_text(strip=True)\<close>) or with \<open>None\<close> when it
  finds no element. A web answers, for a URL, with the parsed page or with the exception
  that \<open>requests.get\<close>, \<open>raise_for_status\<close> or the parser raised; these are
  subclasses of \<open>Exception\<close>, which the handler of \<open>get_job_detail\<close> catches. The lines
  the functions print to standard output are not part of the model.
\<close>

type_synonym soup = "string \<Rightarrow> string option"

type_synonym web = "string \<Rightarrow> py_error + soup"

record job_detail =
  description :: string
  experience :: string
  skills :: string
  summary :: string
  salary :: string

definition description_selectors_github :: "string list" where
  \<open>description_selectors_github =
     [''.markdown-body'', ''.job-description'', ''.job-details'', ''.content'', ''main'',
      ''[data-target="readme-toc.content"]'']\<close>

definition description_selectors_microsoft :: "string list" where
  \<open>description_selectors_microsoft =
     [''.job-description'', ''.job-details'', ''[data-ph-at-id="job-description"]'',
      ''.content'', ''main'']\<close>

text \<open>The loop over \<open>description_selectors\<close>: the first selector with an element wins.\<close>

fun first_description :: "soup \<Rightarrow> string list \<Rightarrow> string" where
  "first_description page [] = []"
| "first_description page (selector # rest) =
     (case page selector of Some text \<Rightarrow> text | None \<Rightarrow> first_description page rest)"

text \<open>\<open>description[:200] + "..." if len(description) > 200 else description\<close>.\<close>

definition summarize :: "string \<Rightarrow> string" where
  "summarize desc = (if length desc > 200 then take 200 desc @ ''...'' else desc)"

text \<open>
  \<open>get_job_detail\<close> of \<open>scrape_jobs_github.py\<close>. The inner \<open>case\<close> is the body of the
  \<open>try\<close>, the outer one the \<open>except Exception\<close> handler.
\<close>

definition get_job_detail_github :: "web \<Rightarrow> string \<Rightarrow> py_error + job_detail" where
  "get_job_detail_github net job_url =
     (case (case net job_url of
              Inl e \<Rightarrow> Inl e
            | Inr page \<Rightarrow>
                (let desc = first_description page description_selectors_github
                 in case extract_experience_and_skills_github (PyStr desc) of
                      Inl e \<Rightarrow> Inl e
                    | Inr (exp, sk) \<Rightarrow>
                        Inr \<lparr>description = desc, experience = exp, skills = sk,
                             summary = summarize desc, salary = []\<rparr>)) of
        Inr detail \<Rightarrow> Inr detail
      | Inl e \<Rightarrow>
          Inr \<lparr>description = [], experience = [], skills = [], summary = [], salary = []\<rparr>)"

text \<open>\<open>get_job_detail\<close> of \<open>scrape_microsoft_jobs.py\<close>.\<close>

definition get_job_detail_microsoft :: "web \<Rightarrow> string \<Rightarrow> py_error + job_detail" where
  "get_job_detail_microsoft net job_url =
     (case (case net job_url of
              Inl e \<Rightarrow> Inl e
            | Inr page \<Rightarrow>
                (let desc = first_description page description_selectors_microsoft
                 in case extract_experience_and_skills_microsoft (PyStr desc) of
                      Inl e \<Rightarrow> Inl e
                    | Inr (exp, sk) \<Rightarrow>
                        Inr \<lparr>description = desc, experience = exp, skills = sk,
                             summary = summarize desc, salary = []\<rparr>)) of
        Inr detail \<Rightarrow> Inr detail
      | Inl e \<Rightarrow>
          Inr \<lparr>description = [], experience = [], skills = [], summary = [], salary = []\<rparr>)"

section \<open>The tabular writer\<close>

text \<open>
  A job is a Python dict from column names to strings, kept as an association list in
  insertion order and read with \<open>map_of\<close>. A data frame is its column names and its rows,
  every row holding one cell per column; \<open>NaN\<close> is the cell of a key that a dict lacks.
\<close>

type_synonym job = "(string \<times> string) list"




























section \<open>Facts about the text primitives\<close>

lemma str_in_sublist: "str_in n h \<longleftrightarrow> sublist n h"
  by (induction h) (auto simp: sublist_Cons_right)

lemma collect_skills_filter:
  "collect_skills ks d found = found @ filter (\<lambda>k. str_in (str_lower k) d) ks"
  by (induction ks arbitrary: found) auto

lemma lower_char_idem: "lower_char (lower_char c) = lower_char c"
  by (auto simp: lower_char_def Let_def)

lemma str_lower_idem: "str_lower (str_lower s) = str_lower s"
  by (simp add: str_lower_def lower_char_idem)

lemma sublist_str_lower: "sublist n t \<Longrightarrow> sublist (str_lower n) (str_lower t)"
  unfolding str_lower_def sublist_def by (metis map_append)

lemma count_join:
  "\<forall>k\<in>set ks. CHR '','' \<notin> set k \<Longrightarrow> count_list (join '', '' ks) CHR '','' = length ks - 1"
  by (induction "'', ''" ks rule: join.induct) (auto simp: count_list_0_iff)

lemma kw_g_lower: "\<forall>k\<in>set skill_keywords_github. str_lower k = k"
  unfolding skill_keywords_github_def by code_simp
lemma kw_m_lower: "\<forall>k\<in>set skill_keywords_microsoft. str_lower k = k"
  unfolding skill_keywords_microsoft_def by code_simp
lemma kw_g_nocomma: "\<forall>k\<in>set skill_keywords_github. CHR '','' \<notin> set k"
  unfolding skill_keywords_github_def by simp
lemma kw_m_nocomma: "\<forall>k\<in>set skill_keywords_microsoft. CHR '','' \<notin> set k"
  unfolding skill_keywords_microsoft_def by simp

lemma top_skills_filter:
  "\<forall>k\<in>set ks. str_lower k = k \<Longrightarrow>
   top_skills ks d = take 10 (filter (\<lambda>k. sublist k d) ks)"
  unfolding top_skills_def collect_skills_filter
  by (simp add: str_in_sublist cong: filter_cong)

lemma extract_github_str:
  "extract_experience_and_skills_github (PyStr t) =
     (if t = [] then Inr ([], [])
      else Inr (first_experience experience_patterns_github (str_lower t),
                join '', '' (top_skills skill_keywords_github (str_lower t))))"
  by (simp add: extract_experience_and_skills_github_def)

lemma extract_microsoft_str:
  "extract_experience_and_skills_microsoft (PyStr t) =
     (if t = [] then Inr ([], [])
      else Inr (first_experience experience_patterns_microsoft (str_lower t),
                join '', '' (top_skills skill_keywords_microsoft (str_lower t))))"
  by (simp add: extract_experience_and_skills_microsoft_def)

lemma extract_github_None: "extract_experience_and_skills_github PyNone = Inr ([], [])"
  by (simp add: extract_experience_and_skills_github_def)

lemma extract_microsoft_None: "extract_experience_and_skills_microsoft PyNone = Inr ([], [])"
  by (simp add: extract_experience_and_skills_microsoft_def)


lemma kw_g_nonempty: "\<forall>k\<in>set skill_keywords_github. k \<noteq> []"
  unfolding skill_keywords_github_def by simp
lemma kw_m_nonempty: "\<forall>k\<in>set skill_keywords_microsoft. k \<noteq> []"
  unfolding skill_keywords_microsoft_def by simp

lemma top_skills_spec:
  "\<forall>k\<in>set ks. str_lower k = k \<Longrightarrow> top_skills ks (str_lower t) = spec_skill_list ks t"
  by (simp add: top_skills_filter spec_skill_list_def)

lemma spec_skill_list_empty_text: "\<forall>k\<in>set ks. k \<noteq> [] \<Longrightarrow> spec_skill_list ks [] = []"
  by (auto simp: spec_skill_list_def str_lower_def filter_empty_conv)

lemma spec_skill_list_length: "length (spec_skill_list ks t) \<le> 10"
  by (simp add: spec_skill_list_def)

lemma spec_skill_list_subseq: "subseq (spec_skill_list ks t) ks"
proof -
  have "subseq (spec_skill_list ks t) (filter (\<lambda>k. sublist k (str_lower t)) ks)"
    unfolding spec_skill_list_def
    by (intro sublist_imp_subseq prefix_imp_sublist take_is_prefix)
  then show ?thesis
    using subseq_filter_left subseq_order.trans by blast
qed

lemma spec_skill_list_commas:
  assumes "\<forall>k\<in>set ks. CHR '','' \<notin> set k"
  shows "count_list (join '', '' (spec_skill_list ks t)) CHR '','' \<le> 9"
proof -
  have "set (spec_skill_list ks t) \<subseteq> set ks"
    by (auto simp: spec_skill_list_def dest: in_set_takeD)
  with assms have "\<forall>k\<in>set (spec_skill_list ks t). CHR '','' \<notin> set k" by blast
  then have "count_list (join '', '' (spec_skill_list ks t)) CHR '','' =
      length (spec_skill_list ks t) - 1"
    by (rule count_join)
  with spec_skill_list_length [of ks t] show ?thesis by simp
qed

lemma first_experience_github_empty: "first_experience experience_patterns_github [] = []"
  by code_simp
lemma first_experience_microsoft_empty: "first_experience experience_patterns_microsoft [] = []"
  by code_simp

lemma extract_github_eq:
  "extract_experience_and_skills_github (PyStr t) =
     Inr (first_experience experience_patterns_github (str_lower t),
          join '', '' (spec_skill_list skill_keywords_github t))"
proof (cases "t = []")
  case True
  then show ?thesis
    by (simp add: extract_github_str str_lower_def first_experience_github_empty
        spec_skill_list_empty_text [OF kw_g_nonempty, unfolded str_lower_def, simplified])
next
  case False
  then show ?thesis
    by (simp add: extract_github_str top_skills_spec [OF kw_g_lower])
qed

lemma extract_microsoft_eq:
  "extract_experience_and_skills_microsoft (PyStr t) =
     Inr (first_experience experience_patterns_microsoft (str_lower t),
          join '', '' (spec_skill_list skill_keywords_microsoft t))"
proof (cases "t = []")
  case True
  then show ?thesis
    by (simp add: extract_microsoft_str str_lower_def first_experience_microsoft_empty
        spec_skill_list_empty_text [OF kw_m_nonempty, unfolded str_lower_def, simplified])
next
  case False
  then show ?thesis
    by (simp add: extract_microsoft_str top_skills_spec [OF kw_m_lower])
qed

lemma extract_github_entries:
  "\<exists>e ks. extract_experience_and_skills_github jd = Inr (e, join '', '' ks)
     \<and> length ks \<le> 10 \<and> subseq ks skill_keywords_github
     \<and> count_list (join '', '' ks) CHR '','' \<le> 9"
proof (cases jd)
  case PyNone
  have "extract_experience_and_skills_github PyNone = Inr ([], join '', '' [])"
    by (simp add: extract_github_None)
  then show ?thesis using PyNone by (intro exI [of _ "[]"]) simp
next
  case (PyStr t)
  show ?thesis
    unfolding PyStr extract_github_eq
    using spec_skill_list_length spec_skill_list_subseq spec_skill_list_commas [OF kw_g_nocomma]
    by blast
qed

lemma extract_microsoft_entries:
  "\<exists>e ks. extract_experience_and_skills_microsoft jd = Inr (e, join '', '' ks)
     \<and> length ks \<le> 10 \<and> subseq ks skill_keywords_microsoft
     \<and> count_list (join '', '' ks) CHR '','' \<le> 9"
proof (cases jd)
  case PyNone
  have "extract_experience_and_skills_microsoft PyNone = Inr ([], join '', '' [])"
    by (simp add: extract_microsoft_None)
  then show ?thesis using PyNone by (intro exI [of _ "[]"]) simp
next
  case (PyStr t)
  show ?thesis
    unfolding PyStr extract_microsoft_eq
    using spec_skill_list_length spec_skill_list_subseq spec_skill_list_commas [OF kw_m_nocomma]
    by blast
qed

text \<open>
  Claim C1. For every input, text or \<open>None\<close>, both extractors return a skills cell that
  is the \<open>", "\<close>-join of at most 10 entries, taken from the vocabulary in its order; the
  cell therefore holds at most 9 commas.
\<close>

theorem skills_at_most_ten:
  "(\<exists>e ks. extract_experience_and_skills_github jd = Inr (e, join '', '' ks)
       \<and> length ks \<le> 10 \<and> subseq ks skill_keywords_github
       \<and> count_list (join '', '' ks) CHR '','' \<le> 9)
   \<and> (\<exists>e ks. extract_experience_and_skills_microsoft jd = Inr (e, join '', '' ks)
       \<and> length ks \<le> 10 \<and> subseq ks skill_keywords_microsoft
       \<and> count_list (join '', '' ks) CHR '','' \<le> 9)"
  using extract_github_entries extract_microsoft_entries by (rule conjI)

text \<open>
  Claim C4. For every input, text or \<open>None\<close>, both extractors return a pair and never
  an exception: the guard \<open>if not job_description\<close> keeps \<open>None\<close> away from the call
  of \<open>.lower()\<close>. \<open>None\<close> and the empty string give the pair of two empty strings. The
  result is a function of the input alone.
\<close>

theorem extractor_never_raises:
  "(\<exists>e s. extract_experience_and_skills_github jd = Inr (e, s))
   \<and> (\<exists>e s. extract_experience_and_skills_microsoft jd = Inr (e, s))
   \<and> extract_experience_and_skills_github PyNone = Inr ([], [])
   \<and> extract_experience_and_skills_github (PyStr []) = Inr ([], [])
   \<and> extract_experience_and_skills_microsoft PyNone = Inr ([], [])
   \<and> extract_experience_and_skills_microsoft (PyStr []) = Inr ([], [])"
proof -
  have "\<exists>e s. extract_experience_and_skills_github jd = Inr (e, s)"
    by (cases jd) (simp_all add: extract_github_None extract_github_str)
  moreover have "\<exists>e s. extract_experience_and_skills_microsoft jd = Inr (e, s)"
    by (cases jd) (simp_all add: extract_microsoft_None extract_microsoft_str)
  ultimately show ?thesis
    by (simp add: extract_github_None extract_microsoft_None extract_github_str
        extract_microsoft_str)
qed

text \<open>
  Claim C5. For every text, the skills cell of both extractors is the one the
  specification describes: the vocabulary entries that occur in the lower-cased text, in
  the vocabulary's order, cut to the first 10 and joined with \<open>", "\<close>. When no entry
  occurs the cell is the empty string.
\<close>

theorem skills_in_vocabulary_order:
  "extract_experience_and_skills_github (PyStr t) =
     Inr (first_experience experience_patterns_github (str_lower t),
          spec_skills skill_keywords_github t)
   \<and> extract_experience_and_skills_microsoft (PyStr t) =
     Inr (first_experience experience_patterns_microsoft (str_lower t),
          spec_skills skill_keywords_microsoft t)
   \<and> subseq (spec_skill_list skill_keywords_github t) skill_keywords_github
   \<and> subseq (spec_skill_list skill_keywords_microsoft t) skill_keywords_microsoft
   \<and> ((\<forall>k\<in>set skill_keywords_github. \<not> sublist k (str_lower t)) \<longrightarrow>
        spec_skills skill_keywords_github t = [])
   \<and> ((\<forall>k\<in>set skill_keywords_microsoft. \<not> sublist k (str_lower t)) \<longrightarrow>
        spec_skills skill_keywords_microsoft t = [])"
proof -
  have "spec_skills ks t = []" if "\<forall>k\<in>set ks. \<not> sublist k (str_lower t)" for ks
    using that by (simp add: spec_skills_def spec_skill_list_def filter_empty_conv [THEN iffD2])
  then show ?thesis
    by (simp add: extract_github_eq extract_microsoft_eq spec_skills_def spec_skill_list_subseq)
qed

theorem skills_in_vocabulary_order_witness:
  "filter (\<lambda>k. sublist k (str_lower ''Hello World'')) skill_keywords_github = []
   \<and> filter (\<lambda>k. sublist k (str_lower ''Hello World'')) skill_keywords_microsoft = []
   \<and> extract_experience_and_skills_github (PyStr ''Hello World'') = Inr ([], [])
   \<and> extract_experience_and_skills_microsoft (PyStr ''Hello World'') = Inr ([], [])
   \<and> extract_experience_and_skills_github (PyStr ''Docker, SQL and Python'') =
        Inr ([], ''python, sql, docker'')
   \<and> extract_experience_and_skills_microsoft (PyStr ''Docker, SQL and Python'') =
        Inr ([], ''python, sql, docker'')"
proof -
  have v: "extract_experience_and_skills_github (PyStr ''Docker, SQL and Python'') =
        Inr ([], ''python, sql, docker'')"
    "extract_experience_and_skills_microsoft (PyStr ''Docker, SQL and Python'') =
        Inr ([], ''python, sql, docker'')"
    by code_simp+
  have g: "filter (\<lambda>k. sublist k (str_lower ''Hello World'')) skill_keywords_github = []"
    unfolding skill_keywords_github_def by code_simp
  have m: "filter (\<lambda>k. sublist k (str_lower ''Hello World'')) skill_keywords_microsoft = []"
    unfolding skill_keywords_microsoft_def by code_simp
  have e: "first_experience experience_patterns_github (str_lower ''Hello World'') = []"
    "first_experience experience_patterns_microsoft (str_lower ''Hello World'') = []"
    by code_simp+
  from g have g': "\<forall>k\<in>set skill_keywords_github. \<not> sublist k (str_lower ''Hello World'')"
    by (simp add: filter_empty_conv)
  from m have m': "\<forall>k\<in>set skill_keywords_microsoft. \<not> sublist k (str_lower ''Hello World'')"
    by (simp add: filter_empty_conv)
  show ?thesis
    using skills_in_vocabulary_order [of "''Hello World''"] g m g' m' e v by simp
qed

lemma extract_github_lower:
  "extract_experience_and_skills_github (PyStr (str_lower t)) =
   extract_experience_and_skills_github (PyStr t)"
  by (simp add: extract_github_str str_lower_idem) (simp add: str_lower_def)

lemma extract_microsoft_lower:
  "extract_experience_and_skills_microsoft (PyStr (str_lower t)) =
   extract_experience_and_skills_microsoft (PyStr t)"
  by (simp add: extract_microsoft_str str_lower_idem) (simp add: str_lower_def)

lemma spec_skill_list_lower: "spec_skill_list ks (str_lower t) = spec_skill_list ks t"
  by (simp add: spec_skill_list_def str_lower_idem)

lemma first_entry_reported:
  "sublist k (str_lower t) \<Longrightarrow> spec_skill_list (k # ks) t = k # take 9 (filter (\<lambda>e. sublist e (str_lower t)) ks)"
  by (simp add: spec_skill_list_def)

lemma second_entry_reported:
  "sublist k (str_lower t) \<Longrightarrow> k \<in> set (spec_skill_list (j # k # ks) t)"
  by (simp add: spec_skill_list_def)

lemma python_lower: "str_lower ''PYTHON'' = ''python''" "str_lower ''python'' = ''python''"
  by code_simp+

lemma python_in_lower:
  assumes "sublist ''PYTHON'' t \<or> sublist ''python'' t"
  shows "sublist ''python'' (str_lower t)"
  using assms sublist_str_lower [of "''PYTHON''" t] sublist_str_lower [of "''python''" t]
  by (auto simp only: python_lower)

text \<open>
  Claim C6. Skill matching is case-insensitive. Both extractors return the same result
  for a text and for its lower-cased form, so an entry is reported for the one exactly
  when it is reported for the other. Every text containing \<open>PYTHON\<close> or \<open>python\<close>
  has \<open>python\<close>, the first vocabulary entry, as the first entry of its skills cell; the
  texts \<open>PYTHON\<close> and \<open>python\<close> both give the cell \<open>python\<close>.
\<close>

theorem skill_matching_ignores_case:
  "extract_experience_and_skills_github (PyStr (str_lower t)) =
     extract_experience_and_skills_github (PyStr t)
   \<and> extract_experience_and_skills_microsoft (PyStr (str_lower t)) =
     extract_experience_and_skills_microsoft (PyStr t)
   \<and> (k \<in> set (spec_skill_list skill_keywords_github t) \<longleftrightarrow>
        k \<in> set (spec_skill_list skill_keywords_github (str_lower t)))
   \<and> (k \<in> set (spec_skill_list skill_keywords_microsoft t) \<longleftrightarrow>
        k \<in> set (spec_skill_list skill_keywords_microsoft (str_lower t)))
   \<and> (sublist ''PYTHON'' t \<or> sublist ''python'' t \<longrightarrow>
        (\<exists>e rest. extract_experience_and_skills_github (PyStr t) =
                    Inr (e, join '', '' (''python'' # rest)))
        \<and> (\<exists>e rest. extract_experience_and_skills_microsoft (PyStr t) =
                    Inr (e, join '', '' (''python'' # rest))))
   \<and> extract_experience_and_skills_github (PyStr ''PYTHON'') = Inr ([], ''python'')
   \<and> extract_experience_and_skills_github (PyStr ''python'') = Inr ([], ''python'')
   \<and> extract_experience_and_skills_microsoft (PyStr ''PYTHON'') = Inr ([], ''python'')
   \<and> extract_experience_and_skills_microsoft (PyStr ''python'') = Inr ([], ''python'')"
proof -
  have py: "\<exists>e rest. extract_experience_and_skills_github (PyStr t) =
                Inr (e, join '', '' (''python'' # rest))"
       "\<exists>e rest. extract_experience_and_skills_microsoft (PyStr t) =
                Inr (e, join '', '' (''python'' # rest))"
    if "sublist ''PYTHON'' t \<or> sublist ''python'' t"
  proof -
    have d: "sublist ''python'' (str_lower t)" using that by (rule python_in_lower)
    show "\<exists>e rest. extract_experience_and_skills_github (PyStr t) =
                Inr (e, join '', '' (''python'' # rest))"
      unfolding extract_github_eq skill_keywords_github_def first_entry_reported [OF d]
      by blast
    show "\<exists>e rest. extract_experience_and_skills_microsoft (PyStr t) =
                Inr (e, join '', '' (''python'' # rest))"
      unfolding extract_microsoft_eq skill_keywords_microsoft_def first_entry_reported [OF d]
      by blast
  qed
  have c: "extract_experience_and_skills_github (PyStr ''PYTHON'') = Inr ([], ''python'')"
    "extract_experience_and_skills_github (PyStr ''python'') = Inr ([], ''python'')"
    "extract_experience_and_skills_microsoft (PyStr ''PYTHON'') = Inr ([], ''python'')"
    "extract_experience_and_skills_microsoft (PyStr ''python'') = Inr ([], ''python'')"
    by code_simp+
  show ?thesis
    using py c by (simp add: extract_github_lower extract_microsoft_lower spec_skill_list_lower)
qed

theorem skill_matching_ignores_case_witness:
  "sublist ''PYTHON'' ''We use PYTHON daily''
   \<and> (\<exists>e rest. extract_experience_and_skills_github (PyStr ''We use PYTHON daily'') =
                    Inr (e, join '', '' (''python'' # rest)))
   \<and> (\<exists>e rest. extract_experience_and_skills_microsoft (PyStr ''We use PYTHON daily'') =
                    Inr (e, join '', '' (''python'' # rest)))"
proof -
  have h: "sublist ''PYTHON'' ''We use PYTHON daily''" by code_simp
  show ?thesis
    using skill_matching_ignores_case [of "''We use PYTHON daily''"] h by simp
qed

lemma java_in_javascript: "sublist ''java'' ''javascript''"
  by code_simp

lemma javascript_lower: "str_lower ''javascript'' = ''javascript''"
  by code_simp

text \<open>
  Claim C10. Skill detection is substring membership, not whole-word matching. The text
  \<open>javascript\<close> gives the cell \<open>java, javascript\<close> and the text \<open>maintain\<close> gives
  \<open>ai\<close>; every text containing \<open>javascript\<close> has \<open>java\<close>, the second vocabulary
  entry, among its reported entries.
\<close>

theorem skills_match_inside_longer_words:
  "extract_experience_and_skills_github (PyStr t) =
     Inr (first_experience experience_patterns_github (str_lower t),
          join '', '' (spec_skill_list skill_keywords_github t))
   \<and> extract_experience_and_skills_microsoft (PyStr t) =
     Inr (first_experience experience_patterns_microsoft (str_lower t),
          join '', '' (spec_skill_list skill_keywords_microsoft t))
   \<and> (sublist ''javascript'' t \<or> sublist ''javascript'' (str_lower t) \<longrightarrow>
        ''java'' \<in> set (spec_skill_list skill_keywords_github t)
        \<and> ''java'' \<in> set (spec_skill_list skill_keywords_microsoft t))
   \<and> extract_experience_and_skills_github (PyStr ''javascript'') = Inr ([], ''java, javascript'')
   \<and> extract_experience_and_skills_microsoft (PyStr ''javascript'') = Inr ([], ''java, javascript'')
   \<and> extract_experience_and_skills_github (PyStr ''maintain'') = Inr ([], ''ai'')
   \<and> extract_experience_and_skills_microsoft (PyStr ''maintain'') = Inr ([], ''ai'')"
proof -
  have j: "''java'' \<in> set (spec_skill_list skill_keywords_github t)
        \<and> ''java'' \<in> set (spec_skill_list skill_keywords_microsoft t)"
    if "sublist ''javascript'' t \<or> sublist ''javascript'' (str_lower t)"
  proof -
    have "sublist ''javascript'' (str_lower t)"
      using that sublist_str_lower [of "''javascript''" t] by (auto simp only: javascript_lower)
    with java_in_javascript have "sublist ''java'' (str_lower t)"
      by (rule sublist_order.order_trans)
    then show ?thesis
      unfolding skill_keywords_github_def skill_keywords_microsoft_def
      by (simp only: second_entry_reported)
  qed
  have c: "extract_experience_and_skills_github (PyStr ''javascript'') = Inr ([], ''java, javascript'')"
    "extract_experience_and_skills_microsoft (PyStr ''javascript'') = Inr ([], ''java, javascript'')"
    "extract_experience_and_skills_github (PyStr ''maintain'') = Inr ([], ''ai'')"
    "extract_experience_and_skills_microsoft (PyStr ''maintain'') = Inr ([], ''ai'')"
    by code_simp+
  show ?thesis
    using j c extract_github_eq extract_microsoft_eq by blast
qed

theorem skills_match_inside_longer_words_witness:
  "sublist ''javascript'' ''javascript developer''
   \<and> ''java'' \<in> set (spec_skill_list skill_keywords_github ''javascript developer'')
   \<and> ''java'' \<in> set (spec_skill_list skill_keywords_microsoft ''javascript developer'')"
proof -
  have h: "sublist ''javascript'' ''javascript developer''" by code_simp
  show ?thesis
    using skills_match_inside_longer_words [of "''javascript developer''"] h by blast
qed

section \<open>Facts about the job detail pages\<close>

lemma summarize_short: "length d \<le> 200 \<Longrightarrow> summarize d = d"
  by (simp add: summarize_def)

lemma summarize_long:
  "200 < length d \<Longrightarrow> summarize d = take 200 d @ ''...'' \<and> length (summarize d) = 203"
  by (simp add: summarize_def)

lemma get_job_detail_github_summary:
  "\<exists>det. get_job_detail_github net url = Inr det \<and> summary det = summarize (description det)"
  by (auto simp: get_job_detail_github_def extract_github_eq Let_def summarize_def
      split: sum.splits)

lemma get_job_detail_microsoft_summary:
  "\<exists>det. get_job_detail_microsoft net url = Inr det \<and> summary det = summarize (description det)"
  by (auto simp: get_job_detail_microsoft_def extract_microsoft_eq Let_def summarize_def
      split: sum.splits)

lemma get_job_detail_github_page:
  "net url = Inr page \<Longrightarrow>
   get_job_detail_github net url =
     Inr \<lparr>description = first_description page description_selectors_github,
          experience = first_experience experience_patterns_github
                         (str_lower (first_description page description_selectors_github)),
          skills = spec_skills skill_keywords_github
                     (first_description page description_selectors_github),
          summary = summarize (first_description page description_selectors_github),
          salary = []\<rparr>"
  by (simp add: get_job_detail_github_def extract_github_eq spec_skills_def Let_def)

lemma get_job_detail_microsoft_page:
  "net url = Inr page \<Longrightarrow>
   get_job_detail_microsoft net url =
     Inr \<lparr>description = first_description page description_selectors_microsoft,
          experience = first_experience experience_patterns_microsoft
                         (str_lower (first_description page description_selectors_microsoft)),
          skills = spec_skills skill_keywords_microsoft
                     (first_description page description_selectors_microsoft),
          summary = summarize (first_description page description_selectors_microsoft),
          salary = []\<rparr>"
  by (simp add: get_job_detail_microsoft_def extract_microsoft_eq spec_skills_def Let_def)

lemma long_page_description:
  "first_description (\<lambda>s. if s = ''main'' then Some (replicate 250 CHR ''x'') else None)
     description_selectors_github = replicate 250 CHR ''x''"
  "first_description (\<lambda>s. if s = ''main'' then Some (replicate 250 CHR ''x'') else None)
     description_selectors_microsoft = replicate 250 CHR ''x''"
  by (simp_all add: description_selectors_github_def description_selectors_microsoft_def)

lemma short_page_description:
  "first_description (\<lambda>s. if s = ''.job-details'' then Some ''Build tools'' else
       if s = ''main'' then Some ''Careers Build tools Apply'' else None)
     description_selectors_github = ''Build tools''"
  "first_description (\<lambda>s. if s = ''.job-details'' then Some ''Build tools'' else
       if s = ''main'' then Some ''Careers Build tools Apply'' else None)
     description_selectors_microsoft = ''Build tools''"
  by (simp_all add: description_selectors_github_def description_selectors_microsoft_def)

text \<open>
  Claim C3. A description of at most 200 characters is its own summary (the empty one
  included); a longer one is summarised by its first 200 characters followed by \<open>...\<close>,
  203 characters in all. For every page that is fetched, \<open>get_job_detail\<close> returns the
  text of the first description selector that finds an element as the description, and
  this summary of that text as the summary; the summary field of every record it returns
  is the summary of the description field.
\<close>

theorem summary_truncates_at_200:
  "(length d \<le> 200 \<longrightarrow> summarize d = d)
   \<and> (200 < length d \<longrightarrow> summarize d = take 200 d @ ''...'' \<and> length (summarize d) = 203)
   \<and> summarize [] = []
   \<and> (\<exists>det. get_job_detail_github net url = Inr det
         \<and> summary det = summarize (description det))
   \<and> (\<exists>det. get_job_detail_microsoft net url = Inr det
         \<and> summary det = summarize (description det))
   \<and> (net url = Inr page \<longrightarrow>
        get_job_detail_github net url =
          Inr \<lparr>description = first_description page description_selectors_github,
               experience = first_experience experience_patterns_github
                              (str_lower (first_description page description_selectors_github)),
               skills = spec_skills skill_keywords_github
                          (first_description page description_selectors_github),
               summary = summarize (first_description page description_selectors_github),
               salary = []\<rparr>
        \<and> get_job_detail_microsoft net url =
          Inr \<lparr>description = first_description page description_selectors_microsoft,
               experience = first_experience experience_patterns_microsoft
                              (str_lower (first_description page description_selectors_microsoft)),
               skills = spec_skills skill_keywords_microsoft
                          (first_description page description_selectors_microsoft),
               summary = summarize (first_description page description_selectors_microsoft),
               salary = []\<rparr>)"
  using summarize_short [of d] summarize_long [of d] summarize_short [of "[]"]
    get_job_detail_github_summary [of net url] get_job_detail_microsoft_summary [of net url]
    get_job_detail_github_page [of net url page] get_job_detail_microsoft_page [of net url page]
  by simp

theorem summary_truncates_at_200_witness:
  "length ''Build tools'' \<le> 200 \<and> summarize ''Build tools'' = ''Build tools''
   \<and> 200 < length (replicate 250 CHR ''x'')
   \<and> summarize (replicate 250 CHR ''x'') = replicate 200 CHR ''x'' @ ''...''
   \<and> length (summarize (replicate 250 CHR ''x'')) = 203
   \<and> (\<exists>e sk. get_job_detail_github
        (\<lambda>u. Inr (\<lambda>s. if s = ''main'' then Some (replicate 250 CHR ''x'') else None))
        ''https://example.org/job/1'' =
       Inr \<lparr>description = replicate 250 CHR ''x'', experience = e, skills = sk,
            summary = replicate 200 CHR ''x'' @ ''...'', salary = []\<rparr>)
   \<and> (\<exists>e sk. get_job_detail_microsoft
        (\<lambda>u. Inr (\<lambda>s. if s = ''main'' then Some (replicate 250 CHR ''x'') else None))
        ''https://example.org/job/1'' =
       Inr \<lparr>description = replicate 250 CHR ''x'', experience = e, skills = sk,
            summary = replicate 200 CHR ''x'' @ ''...'', salary = []\<rparr>)
   \<and> (\<exists>e sk. get_job_detail_github
        (\<lambda>u. Inr (\<lambda>s. if s = ''.job-details'' then Some ''Build tools'' else
                        if s = ''main'' then Some ''Careers Build tools Apply'' else None))
        ''https://example.org/job/2'' =
       Inr \<lparr>description = ''Build tools'', experience = e, skills = sk,
            summary = ''Build tools'', salary = []\<rparr>)"
proof -
  let ?long = "\<lambda>s. if s = ''main'' then Some (replicate 250 CHR ''x'') else None"
  let ?short = "\<lambda>s. if s = ''.job-details'' then Some ''Build tools'' else
                        if s = ''main'' then Some ''Careers Build tools Apply'' else None"
  have s: "summarize (replicate 250 CHR ''x'') = replicate 200 CHR ''x'' @ ''...''"
    "summarize ''Build tools'' = ''Build tools''"
    by (simp_all add: summarize_def)
  from summary_truncates_at_200
      [of "''Build tools''" "\<lambda>u. Inr ?short" "''https://example.org/job/2''" ?short]
    summary_truncates_at_200
      [of "replicate 250 CHR ''x''" "\<lambda>u. Inr ?long" "''https://example.org/job/1''" ?long]
  show ?thesis
    by (simp only: long_page_description short_page_description s) simp
qed

text \<open>
  Claim C8. \<open>get_job_detail\<close> always returns a record, never an exception; when the
  fetch of the page raises, every field of the record is the empty string.
\<close>

theorem fetch_failure_gives_empty_detail:
  "(\<exists>det. get_job_detail_github net url = Inr det)
   \<and> (\<exists>det. get_job_detail_microsoft net url = Inr det)
   \<and> (net url = Inl err \<longrightarrow>
        get_job_detail_github net url =
          Inr \<lparr>description = [], experience = [], skills = [], summary = [], salary = []\<rparr>
        \<and> get_job_detail_microsoft net url =
          Inr \<lparr>description = [], experience = [], skills = [], summary = [], salary = []\<rparr>)"
  using get_job_detail_github_summary [of net url] get_job_detail_microsoft_summary [of net url]
  by (auto simp: get_job_detail_github_def get_job_detail_microsoft_def)

theorem fetch_failure_gives_empty_detail_witness:
  "(\<lambda>u. Inl (RequestException ''timed out'')) ''https://example.org/job/1'' =
     (Inl (RequestException ''timed out'') :: py_error + soup)
   \<and> get_job_detail_github (\<lambda>u. Inl (RequestException ''timed out'')) ''https://example.org/job/1'' =
       Inr \<lparr>description = [], experience = [], skills = [], summary = [], salary = []\<rparr>
   \<and> get_job_detail_microsoft (\<lambda>u. Inl (RequestException ''timed out'')) ''https://example.org/job/1'' =
       Inr \<lparr>description = [], experience = [], skills = [], summary = [], salary = []\<rparr>"
  using fetch_failure_gives_empty_detail
    [of "\<lambda>u. Inl (RequestException ''timed out'')" "''https://example.org/job/1''"
        "RequestException ''timed out''"]
  by simp

section \<open>Facts about the tabular writer\<close>










































section \<open>Facts about the matcher\<close>

lemma lower_char_digit: "lower_char x = lower_char c \<Longrightarrow> is_digit x = is_digit c"
  by (auto simp: lower_char_def is_digit_def Let_def split: if_splits)

lemma space_not_digit: "is_space x \<Longrightarrow> \<not> is_digit x"
  by (auto simp: is_space_def is_digit_def Let_def)

lemma class_digit_free_cmatch: "class_digit_free c \<Longrightarrow> cmatch c x \<Longrightarrow> \<not> is_digit x"
  by (cases c) (auto simp: space_not_digit dest: lower_char_digit)

lemma ci_prefix_length: "ci_prefix w s \<Longrightarrow> length w \<le> length s"
  by (induction w s rule: ci_prefix.induct) auto

lemma ci_prefix_append: "ci_prefix w s \<Longrightarrow> ci_prefix w (take (length w) s @ y)"
  by (induction w s rule: ci_prefix.induct) auto

lemma ci_prefix_lower: "ci_prefix w s \<Longrightarrow> str_lower (take (length w) s) = str_lower w"
  by (induction w s rule: ci_prefix.induct) (auto simp: str_lower_def)

lemma ci_prefix_digit_free:
  "ci_prefix w s \<Longrightarrow> list_all (\<lambda>c. \<not> is_digit c) w \<Longrightarrow> \<forall>x\<in>set (take (length w) s). \<not> is_digit x"
  by (induction w s rule: ci_prefix.induct) (auto dest: lower_char_digit)

lemma star_rests_split:
  "rest \<in> set (star_rests c s) \<Longrightarrow> \<exists>m. s = m @ rest \<and> (\<forall>x\<in>set m. cmatch c x)"
proof (induction c s rule: star_rests.induct)
  case (1 c)
  then show ?case by simp
next
  case (2 c x xs)
  show ?case
  proof (cases "rest = x # xs")
    case True
    then show ?thesis by simp
  next
    case False
    with "2.prems" have cx: "cmatch c x" and "rest \<in> set (star_rests c xs)"
      by (auto split: if_splits)
    with "2.IH" obtain m where "xs = m @ rest" "\<forall>x\<in>set m. cmatch c x" by blast
    with cx show ?thesis by (intro exI [of _ "x # m"]) simp
  qed
qed

lemma star_rests_self: "s \<in> set (star_rests c s)"
  by (cases s) simp_all

lemma star_rests_accepts: "\<forall>x\<in>set m. cmatch c x \<Longrightarrow> y \<in> set (star_rests c (m @ y))"
  by (induction m) (simp_all add: star_rests_self)

lemma star_rests_nonempty: "star_rests c s \<noteq> []"
  by (cases s) auto

lemma star_rests_stop: "w = [] \<or> \<not> cmatch c (hd w) \<Longrightarrow> star_rests c w = [w]"
  by (cases w) auto

lemma star_rests_greedy:
  "\<forall>x\<in>set m. cmatch c x \<Longrightarrow> w = [] \<or> \<not> cmatch c (hd w) \<Longrightarrow> hd (star_rests c (m @ w)) = w"
  by (induction m) (simp_all add: star_rests_stop star_rests_nonempty)

text \<open>Every remainder comes from a matched prefix, and the prefix matches before any tail.\<close>

lemma rests_split:
  "rest \<in> set (rests r s) \<Longrightarrow> \<exists>m. s = m @ rest \<and> (\<forall>y. y \<in> set (rests r (m @ y)))"
proof (induction r arbitrary: s rest)
  case (One c)
  then obtain x where "s = x # rest" "cmatch c x"
    by (auto split: list.splits if_splits)
  then show ?case by (intro exI [of _ "[x]"]) simp
next
  case (Str w)
  then have p: "ci_prefix w s" and r: "rest = drop (length w) s"
    by (auto split: if_splits)
  from p have "length w \<le> length s" by (rule ci_prefix_length)
  with p r show ?case
    by (intro exI [of _ "take (length w) s"]) (simp add: ci_prefix_append)
next
  case (Star c)
  then have "rest \<in> set (star_rests c s)" by simp
  from star_rests_split [OF this] obtain m where "s = m @ rest" "\<forall>x\<in>set m. cmatch c x"
    by blast
  then show ?case by (intro exI [of _ m]) (simp add: star_rests_accepts)
next
  case (Plus c)
  then obtain x xs where s: "s = x # xs" and cx: "cmatch c x" and "rest \<in> set (star_rests c xs)"
    by (auto split: list.splits if_splits)
  then obtain m where "xs = m @ rest" "\<forall>x\<in>set m. cmatch c x"
    using star_rests_split by blast
  with s cx show ?case by (intro exI [of _ "x # m"]) (simp add: star_rests_accepts)
next
  case (Opt r)
  show ?case
  proof (cases "rest \<in> set (rests r s)")
    case True
    with Opt.IH obtain m where "s = m @ rest" "\<forall>y. y \<in> set (rests r (m @ y))" by blast
    then show ?thesis by (intro exI [of _ m]) simp
  next
    case False
    with Opt.prems have "rest = s" by simp
    then show ?thesis by (intro exI [of _ "[]"]) simp
  qed
next
  case (Seq r1 r2)
  then obtain mid where m1: "mid \<in> set (rests r1 s)" and m2: "rest \<in> set (rests r2 mid)"
    by auto
  from Seq.IH(1) [OF m1] obtain a where a: "s = a @ mid" "\<forall>y. y \<in> set (rests r1 (a @ y))"
    by blast
  from Seq.IH(2) [OF m2] obtain b where b: "mid = b @ rest" "\<forall>y. y \<in> set (rests r2 (b @ y))"
    by blast
  have "y \<in> set (rests (Seq r1 r2) ((a @ b) @ y))" for y
    using a(2) [rule_format, of "b @ y"] b(2) [rule_format, of y] by auto
  with a b show ?case by (intro exI [of _ "a @ b"]) simp
next
  case (Alt r1 r2)
  then consider "rest \<in> set (rests r1 s)" | "rest \<in> set (rests r2 s)" by auto
  then show ?case
  proof cases
    case 1
    with Alt.IH(1) obtain m where "s = m @ rest" "\<forall>y. y \<in> set (rests r1 (m @ y))" by blast
    then show ?thesis by (intro exI [of _ m]) simp
  next
    case 2
    with Alt.IH(2) obtain m where "s = m @ rest" "\<forall>y. y \<in> set (rests r2 (m @ y))" by blast
    then show ?thesis by (intro exI [of _ m]) simp
  qed
qed

lemma rests_digit_free:
  "digit_free r \<Longrightarrow> rest \<in> set (rests r s) \<Longrightarrow> \<exists>m. s = m @ rest \<and> (\<forall>x\<in>set m. \<not> is_digit x)"
proof (induction r arbitrary: s rest)
  case (One c)
  then obtain x where "s = x # rest" "cmatch c x"
    by (auto split: list.splits if_splits)
  with One.prems(1) show ?case
    by (intro exI [of _ "[x]"]) (simp add: class_digit_free_cmatch)
next
  case (Str w)
  then have p: "ci_prefix w s" and r: "rest = drop (length w) s"
    by (auto split: if_splits)
  with Str.prems(1) show ?case
    by (intro exI [of _ "take (length w) s"]) (simp add: ci_prefix_digit_free)
next
  case (Star c)
  then have "rest \<in> set (star_rests c s)" by simp
  from star_rests_split [OF this] obtain m where "s = m @ rest" "\<forall>x\<in>set m. cmatch c x"
    by blast
  with Star.prems(1) show ?case
    by (intro exI [of _ m]) (auto simp: class_digit_free_cmatch)
next
  case (Plus c)
  then obtain x xs where s: "s = x # xs" and cx: "cmatch c x" and "rest \<in> set (star_rests c xs)"
    by (auto split: list.splits if_splits)
  then obtain m where "xs = m @ rest" "\<forall>x\<in>set m. cmatch c x"
    using star_rests_split by blast
  with s cx Plus.prems(1) show ?case
    by (intro exI [of _ "x # m"]) (auto simp: class_digit_free_cmatch)
next
  case (Opt r)
  show ?case
  proof (cases "rest \<in> set (rests r s)")
    case True
    with Opt show ?thesis by simp
  next
    case False
    with Opt.prems have "rest = s" by simp
    then show ?thesis by (intro exI [of _ "[]"]) simp
  qed
next
  case (Seq r1 r2)
  then obtain mid where m1: "mid \<in> set (rests r1 s)" and m2: "rest \<in> set (rests r2 mid)"
    by auto
  from Seq.IH(1) [OF _ m1] Seq.prems(1) obtain a where a: "s = a @ mid" "\<forall>x\<in>set a. \<not> is_digit x"
    by auto
  from Seq.IH(2) [OF _ m2] Seq.prems(1) obtain b where b: "mid = b @ rest" "\<forall>x\<in>set b. \<not> is_digit x"
    by auto
  from a b show ?case by (intro exI [of _ "a @ b"]) auto
next
  case (Alt r1 r2)
  then show ?case by auto
qed

lemma match_here_None: "match_here r u = None \<longleftrightarrow> rests r u = []"
  by (simp add: match_here_def split: list.split)

lemma findall_from_empty:
  "findall_from r 0 s = [] \<longleftrightarrow> (\<forall>u. suffix u s \<longrightarrow> rests r u = [])"
proof (induction s)
  case Nil
  then show ?case by (simp add: match_here_None [symmetric] split: option.split)
next
  case (Cons c cs)
  have "findall_from r 0 (c # cs) = [] \<longleftrightarrow> rests r (c # cs) = [] \<and> findall_from r 0 cs = []"
    by (simp add: match_here_None [symmetric] split: option.split)
  with Cons show ?case by (auto simp: suffix_Cons)
qed

lemma findall_from_skip:
  "(\<forall>u. u \<noteq> [] \<and> suffix u a \<longrightarrow> rests r (u @ b) = []) \<Longrightarrow>
   findall_from r 0 (a @ b) = findall_from r 0 b"
proof (induction a)
  case Nil
  then show ?case by simp
next
  case (Cons c cs)
  have "rests r ((c # cs) @ b) = []" using Cons.prems [rule_format, of "c # cs"] by simp
  then have "match_here r (c # cs @ b) = None" by (simp add: match_here_None)
  moreover have "findall_from r 0 (cs @ b) = findall_from r 0 b"
    using Cons.prems by (intro Cons.IH) (auto simp: suffix_Cons)
  ultimately show ?case by simp
qed

lemma findall_from_match:
  "m \<in> set (findall_from r k s) \<Longrightarrow> \<exists>u. suffix u s \<and> match_here r u = Some m"
proof (induction r k s rule: findall_from.induct)
  case (1 r k c cs)
  then show ?case by (auto simp: suffix_Cons)
next
  case (2 r k)
  then show ?case by simp
next
  case (3 r)
  then show ?case by (auto split: option.splits)
next
  case (4 r c cs)
  show ?case
  proof (cases "match_here r (c # cs)")
    case None
    with 4 show ?thesis by (auto simp: suffix_Cons)
  next
    case (Some m')
    with "4.prems" consider "m = m'" | "m \<in> set (findall_from r (length m' - 1) cs)" by auto
    then show ?thesis
    proof cases
      case 1
      with Some show ?thesis by (intro exI [of _ "c # cs"]) simp
    next
      case 2
      with "4.IH"(2) [OF Some] show ?thesis by (auto simp: suffix_Cons)
    qed
  qed
qed

lemma findall_from_cong:
  "(\<forall>u. suffix u s \<longrightarrow> match_here r u = match_here r' u) \<Longrightarrow>
   findall_from r k s = findall_from r' k s"
proof (induction r k s rule: findall_from.induct)
  case (1 r k c cs)
  then show ?case by (simp add: suffix_Cons)
next
  case (2 r k)
  then show ?case by simp
next
  case (3 r)
  then show ?case by (simp split: option.splits)
next
  case (4 r c cs)
  have h: "match_here r (c # cs) = match_here r' (c # cs)"
    using "4.prems" [rule_format, of "c # cs"] by simp
  have t: "\<forall>u. suffix u cs \<longrightarrow> match_here r u = match_here r' u"
    using "4.prems" by (simp add: suffix_Cons)
  show ?case
  proof (cases "match_here r (c # cs)")
    case None
    with h t "4.IH"(1) show ?thesis by simp
  next
    case (Some m)
    with h have s': "match_here r' (c # cs) = Some m" by simp
    from "4.IH"(2) [OF Some t] Some s' show ?thesis by simp
  qed
qed

lemma findall_from_head:
  "pre \<noteq> [] \<Longrightarrow> rests r (pre @ rest) = rest # others \<Longrightarrow>
   \<exists>ms. findall_from r 0 (pre @ rest) = pre # ms"
  by (cases pre) (simp_all add: match_here_def)

section \<open>The years pattern\<close>

lemma years_tail_rests: "rests years_tail (''+ years of experience'' @ post) = [post]"
  by (simp add: years_tail_def is_space_def lower_char_def Let_def)

lemma years_tail_digit_free: "digit_free years_tail"
  by (simp add: years_tail_def is_digit_def)

lemma years_match_at_digits:
  assumes "\<forall>c\<in>set ds. is_digit c"
  shows "\<exists>others. rests pat_years_experience (ds @ ''5+ years of experience'' @ post) = post # others"
proof -
  let ?W = "''+ years of experience'' @ post"
  have five: "is_digit CHR ''5''" by (simp add: is_digit_def)
  obtain x m where xm: "ds @ ''5'' = x # m" by (cases ds) auto
  with assms five have dx: "is_digit x" and dm: "\<forall>c\<in>set m. cmatch Digit c"
    by (cases ds; auto)+
  have "\<not> cmatch Digit (hd ?W)" by (simp add: is_digit_def)
  with dm have "hd (star_rests Digit (m @ ?W)) = ?W"
    by (intro star_rests_greedy) auto
  then obtain o1 where o1: "star_rests Digit (m @ ?W) = ?W # o1"
    using star_rests_nonempty [of Digit "m @ ?W"] by (cases "star_rests Digit (m @ ?W)") auto
  have e: "ds @ ''5+ years of experience'' @ post = x # (m @ ?W)"
    using xm by (cases ds) auto
  have p: "rests (Plus Digit) (x # (m @ ?W)) = ?W # o1"
    using dx o1 by (simp only: rests.simps list.case cmatch.simps if_True)
  have "rests pat_years_experience (x # (m @ ?W)) = concat (map (rests years_tail) (?W # o1))"
    by (simp only: pat_years_experience_def rests.simps(6) p)
  also have "\<dots> = post # concat (map (rests years_tail) o1)"
    by (simp only: list.map concat.simps years_tail_rests, simp)
  finally show ?thesis unfolding e by blast
qed

lemma years_match_shape:
  assumes "rest \<in> set (rests pat_years_experience s)"
  shows "\<exists>d nd. s = d @ nd @ rest \<and> d \<noteq> [] \<and> (\<forall>c\<in>set d. is_digit c) \<and> (\<forall>c\<in>set nd. \<not> is_digit c)"
proof -
  from assms obtain mid where m1: "mid \<in> set (rests (Plus Digit) s)"
    and m2: "rest \<in> set (rests years_tail mid)"
    by (auto simp: pat_years_experience_def)
  from m1 obtain x xs where s: "s = x # xs" and dx: "is_digit x" and "mid \<in> set (star_rests Digit xs)"
    by (auto split: list.splits if_splits)
  from star_rests_split [OF this(3)] obtain m where m: "xs = m @ mid" "\<forall>c\<in>set m. cmatch Digit c"
    by blast
  from rests_digit_free [OF years_tail_digit_free m2] obtain nd where
    nd: "mid = nd @ rest" "\<forall>c\<in>set nd. \<not> is_digit c" by blast
  from s dx m nd show ?thesis
    by (intro exI [of _ "x # m"] exI [of _ nd]) auto
qed

lemma digits_then_others:
  assumes "d @ nd = X @ n # Y @ g # Z"
    and "\<forall>c\<in>set d. is_digit c" and "\<forall>c\<in>set nd. \<not> is_digit c"
    and "\<not> is_digit n" and "is_digit g"
  shows False
proof -
  from assms(1) consider w where "d = X @ w" "w \<noteq> []" | w where "X = d @ w"
    by (auto simp: append_eq_append_conv2) metis
  then show False
  proof cases
    case 1
    with assms(1) have "hd w = n" by (cases w) auto
    with 1 have "n \<in> set d" by (cases w) auto
    with assms(2,4) show False by blast
  next
    case 2
    with assms(1) have "nd = w @ n # Y @ g # Z" by simp
    then have "g \<in> set nd" by simp
    with assms(3,5) show False by blast
  qed
qed

lemma digit_suffix: "\<exists>a ds. s = a @ ds \<and> (\<forall>c\<in>set ds. is_digit c) \<and> (a = [] \<or> \<not> is_digit (last a))"
proof (induction s rule: rev_induct)
  case Nil
  then show ?case by simp
next
  case (snoc x xs)
  show ?case
  proof (cases "is_digit x")
    case True
    from snoc obtain a ds where "xs = a @ ds" "\<forall>c\<in>set ds. is_digit c" "a = [] \<or> \<not> is_digit (last a)"
      by blast
    with True show ?thesis
      by (intro exI [of _ a] exI [of _ "ds @ [x]"]) auto
  next
    case False
    then show ?thesis
      by (intro exI [of _ "xs @ [x]"] exI [of _ "[]"]) simp
  qed
qed

lemma occ_lower: "str_lower ''5+ years of experience'' = ''5+ years of experience''"
  by code_simp

lemma str_lower_around:
  "str_lower (pre @ ''5+ years of experience'' @ post) =
   str_lower pre @ ''5+ years of experience'' @ str_lower post"
  using occ_lower by (simp add: str_lower_def)

lemma append_eq_short:
  assumes "xs @ ys = m @ rest" and "length m \<le> length xs"
  shows "\<exists>y. xs = m @ y"
proof -
  from assms(1) have "take (length m) (xs @ ys) = m" by simp
  with assms(2) have "take (length m) xs = m" by simp
  then have "xs = m @ drop (length m) xs" by (metis append_take_drop_id)
  then show ?thesis ..
qed

lemma append_eq_long:
  assumes "xs @ ys = m @ rest" and "\<not> length m \<le> length xs"
  shows "\<exists>w. m = xs @ w \<and> w \<noteq> [] \<and> ys = w @ rest"
proof -
  from assms(1) have "take (length xs) (m @ rest) = xs" by (metis append_eq_conv_conj)
  with assms(2) have t: "take (length xs) m = xs" by simp
  then have m: "m = xs @ drop (length xs) m" by (metis append_take_drop_id)
  from assms(1) have "ys = drop (length xs) (m @ rest)" by (metis append_eq_conv_conj)
  with assms(2) have "ys = drop (length xs) m @ rest" by simp
  with m assms(2) show ?thesis by (intro exI [of _ "drop (length xs) m"]) simp
qed

lemma years_found:
  "\<exists>m ms. findall pat_years_experience (lp @ ''5+ years of experience'' @ lq) = m # ms"
proof -
  from years_match_at_digits [of "[]" lq]
  have "rests pat_years_experience (''5+ years of experience'' @ lq) \<noteq> []" by auto
  moreover have "suffix (''5+ years of experience'' @ lq) (lp @ ''5+ years of experience'' @ lq)"
    by (simp add: suffix_def)
  ultimately have "findall_from pat_years_experience 0 (lp @ ''5+ years of experience'' @ lq) \<noteq> []"
    using findall_from_empty by blast
  then show ?thesis by (simp add: findall_def neq_Nil_conv)
qed

lemma years_leftmost:
  assumes nm: "findall pat_years_experience lp = []"
  shows "\<exists>ds others. suffix ds lp \<and> (\<forall>c\<in>set ds. is_digit c)
           \<and> findall pat_years_experience (lp @ ''5+ years of experience'' @ lq) =
               (ds @ ''5+ years of experience'') # others"
proof -
  let ?occ = "''5+ years of experience''"
  from digit_suffix [of lp] obtain a ds where
    lp: "lp = a @ ds" and dg: "\<forall>c\<in>set ds. is_digit c" and la: "a = [] \<or> \<not> is_digit (last a)"
    by blast
  have none: "\<forall>u. u \<noteq> [] \<and> suffix u a \<longrightarrow> rests pat_years_experience (u @ (ds @ ?occ @ lq)) = []"
  proof (intro allI impI, rule ccontr)
    fix u
    assume u: "u \<noteq> [] \<and> suffix u a"
      and ne: "rests pat_years_experience (u @ (ds @ ?occ @ lq)) \<noteq> []"
    then obtain rest where r: "rest \<in> set (rests pat_years_experience (u @ (ds @ ?occ @ lq)))"
      by (cases "rests pat_years_experience (u @ (ds @ ?occ @ lq))") auto
    from years_match_shape [OF r] obtain d nd where
      sh: "u @ (ds @ ?occ @ lq) = d @ nd @ rest" and dd: "\<forall>c\<in>set d. is_digit c"
      and nn: "\<forall>c\<in>set nd. \<not> is_digit c"
      by blast
    from rests_split [OF r] obtain m where
      m: "u @ (ds @ ?occ @ lq) = m @ rest" and acc: "\<forall>y. y \<in> set (rests pat_years_experience (m @ y))"
      by blast
    from sh m have md: "m = d @ nd" by simp
    show False
    proof (cases "length m \<le> length (u @ ds)")
      case True
      from m have "(u @ ds) @ (?occ @ lq) = m @ rest" by simp
      from append_eq_short [OF this True] obtain y where "u @ ds = m @ y" ..
      with acc have "rests pat_years_experience (u @ ds) \<noteq> []" by (metis empty_iff list.set(1))
      moreover have "suffix (u @ ds) lp" using u lp by (auto simp: suffix_def)
      ultimately show False using nm findall_from_empty [of pat_years_experience lp]
        by (simp add: findall_def)
    next
      case False
      from m have "(u @ ds) @ (?occ @ lq) = m @ rest" by simp
      from append_eq_long [OF this False] obtain w where
        w: "m = (u @ ds) @ w" "w \<noteq> []" "?occ @ lq = w @ rest"
        by blast
      then obtain z where z: "w = CHR ''5'' # z" by (cases w) auto
      from u have ul: "u = butlast u @ [last u]" by simp
      from u la have "\<not> is_digit (last u)" by (auto simp: suffix_def)
      moreover have "is_digit CHR ''5''" by (simp add: is_digit_def)
      moreover have "d @ nd = butlast u @ last u # ds @ CHR ''5'' # z"
        using md w(1) z ul by (metis append.assoc append_Cons append_Nil)
      ultimately show False using digits_then_others dd nn by blast
    qed
  qed
  have skip: "findall_from pat_years_experience 0 (a @ (ds @ ?occ @ lq)) =
      findall_from pat_years_experience 0 (ds @ ?occ @ lq)"
    using none by (rule findall_from_skip)
  from years_match_at_digits [OF dg, of lq] obtain others where
    o: "rests pat_years_experience (ds @ ?occ @ lq) = lq # others" by blast
  have "rests pat_years_experience ((ds @ ?occ) @ lq) = lq # others"
    using o by (simp only: append_assoc)
  from findall_from_head [OF _ this] obtain ms where
    "findall_from pat_years_experience 0 ((ds @ ?occ) @ lq) = (ds @ ?occ) # ms"
    by auto
  then have "findall_from pat_years_experience 0 (ds @ ?occ @ lq) = (ds @ ?occ) # ms"
    by (simp only: append_assoc)
  with skip lp dg show ?thesis
    by (intro exI [of _ ds] exI [of _ ms]) (simp add: findall_def suffix_def)
qed

lemma extract_github_years:
  "findall pat_years_experience (str_lower t) = m # ms \<Longrightarrow>
   \<exists>sk. extract_experience_and_skills_github (PyStr t) = Inr (m, sk)"
  by (simp add: extract_github_eq experience_patterns_github_def)

lemma extract_microsoft_years:
  "findall pat_years_experience (str_lower t) = m # ms \<Longrightarrow>
   \<exists>sk. extract_experience_and_skills_microsoft (PyStr t) = Inr (m, sk)"
  by (simp add: extract_microsoft_eq experience_patterns_microsoft_def)

text \<open>
  Claim C2, amended. For every text containing \<open>5+ years of experience\<close> the years
  pattern, first in the priority list, has a match in the lower-cased text, and the
  experience is the leftmost of its matches, whatever the other four patterns would
  match. When the years pattern has no match in the part of the text before the
  substring, the experience is the substring with the digits that stand directly before
  it, and so contains \<open>5+ years of experience\<close>.
\<close>

theorem first_years_match_wins:
  "(sublist ''5+ years of experience'' t \<longrightarrow>
      (\<exists>m ms sk. findall pat_years_experience (str_lower t) = m # ms
          \<and> extract_experience_and_skills_github (PyStr t) = Inr (m, sk))
      \<and> (\<exists>m ms sk. findall pat_years_experience (str_lower t) = m # ms
          \<and> extract_experience_and_skills_microsoft (PyStr t) = Inr (m, sk)))
   \<and> (findall pat_years_experience (str_lower pre) = [] \<longrightarrow>
      (\<exists>ds sk. (\<forall>c\<in>set ds. is_digit c) \<and> suffix ds (str_lower pre)
          \<and> extract_experience_and_skills_github (PyStr (pre @ ''5+ years of experience'' @ post)) =
              Inr (ds @ ''5+ years of experience'', sk))
      \<and> (\<exists>ds sk. (\<forall>c\<in>set ds. is_digit c) \<and> suffix ds (str_lower pre)
          \<and> extract_experience_and_skills_microsoft (PyStr (pre @ ''5+ years of experience'' @ post)) =
              Inr (ds @ ''5+ years of experience'', sk)))"
proof (intro conjI impI)
  assume "sublist ''5+ years of experience'' t"
  then obtain a b where "t = a @ ''5+ years of experience'' @ b"
    by (auto simp: sublist_def)
  then have "str_lower t = str_lower a @ ''5+ years of experience'' @ str_lower b"
    by (simp only: str_lower_around)
  with years_found [of "str_lower a" "str_lower b"] obtain m ms where
    f: "findall pat_years_experience (str_lower t) = m # ms" by auto
  from extract_github_years [OF f] f
  show "\<exists>m ms sk. findall pat_years_experience (str_lower t) = m # ms
          \<and> extract_experience_and_skills_github (PyStr t) = Inr (m, sk)"
    by blast
  from extract_microsoft_years [OF f] f
  show "\<exists>m ms sk. findall pat_years_experience (str_lower t) = m # ms
          \<and> extract_experience_and_skills_microsoft (PyStr t) = Inr (m, sk)"
    by blast
next
  assume nm: "findall pat_years_experience (str_lower pre) = []"
  from years_leftmost [OF nm, of "str_lower post"] obtain ds others where
    d: "suffix ds (str_lower pre)" "\<forall>c\<in>set ds. is_digit c"
    and "findall pat_years_experience
           (str_lower pre @ ''5+ years of experience'' @ str_lower post) =
         (ds @ ''5+ years of experience'') # others"
    by blast
  then have f: "findall pat_years_experience (str_lower (pre @ ''5+ years of experience'' @ post)) =
      (ds @ ''5+ years of experience'') # others"
    by (simp only: str_lower_around)
  from extract_github_years [OF f] d
  show "\<exists>ds sk. (\<forall>c\<in>set ds. is_digit c) \<and> suffix ds (str_lower pre)
          \<and> extract_experience_and_skills_github (PyStr (pre @ ''5+ years of experience'' @ post)) =
              Inr (ds @ ''5+ years of experience'', sk)"
    by blast
  from extract_microsoft_years [OF f] d
  show "\<exists>ds sk. (\<forall>c\<in>set ds. is_digit c) \<and> suffix ds (str_lower pre)
          \<and> extract_experience_and_skills_microsoft (PyStr (pre @ ''5+ years of experience'' @ post)) =
              Inr (ds @ ''5+ years of experience'', sk)"
    by blast
qed

theorem first_years_match_wins_witness:
  "sublist ''5+ years of experience'' ''Senior role: 15+ years of experience, minimum 3 years''
   \<and> findall pat_years_experience (str_lower ''Senior role: 1'') = []
   \<and> extract_experience_and_skills_github
        (PyStr (''Senior role: 1'' @ ''5+ years of experience'' @ '', minimum 3 years'')) =
      Inr (''15+ years of experience'', [])
   \<and> extract_experience_and_skills_microsoft
        (PyStr (''Senior role: 1'' @ ''5+ years of experience'' @ '', minimum 3 years'')) =
      Inr (''15+ years of experience'', [])"
proof -
  have s: "sublist ''5+ years of experience'' ''Senior role: 15+ years of experience, minimum 3 years''"
    by code_simp
  have n: "findall pat_years_experience (str_lower ''Senior role: 1'') = []"
    by code_simp
  have g: "extract_experience_and_skills_github
        (PyStr (''Senior role: 1'' @ ''5+ years of experience'' @ '', minimum 3 years'')) =
      Inr (''15+ years of experience'', [])"
    by code_simp
  have m: "extract_experience_and_skills_microsoft
        (PyStr (''Senior role: 1'' @ ''5+ years of experience'' @ '', minimum 3 years'')) =
      Inr (''15+ years of experience'', [])"
    by code_simp
  from first_years_match_wins
    [of "''Senior role: 15+ years of experience, minimum 3 years''" "''Senior role: 1''"
        "'', minimum 3 years''"] s n g m
  show ?thesis by blast
qed

text \<open>
  Claim C2 as stated fails: an earlier match of the same pattern is returned instead.
  The text \<open>3 years experience, 5+ years of experience preferred\<close> contains the
  substring, and its experience is \<open>3 years experience\<close>.
\<close>

theorem later_years_match_lost_counterexample:
  "\<not> (\<forall>t e sk. sublist ''5+ years of experience'' t \<longrightarrow>
         extract_experience_and_skills_github (PyStr t) = Inr (e, sk) \<longrightarrow>
         sublist ''5+ years of experience'' e)"
proof
  assume a: "\<forall>t e sk. sublist ''5+ years of experience'' t \<longrightarrow>
         extract_experience_and_skills_github (PyStr t) = Inr (e, sk) \<longrightarrow>
         sublist ''5+ years of experience'' e"
  have "sublist ''5+ years of experience'' ''3 years experience, 5+ years of experience preferred''"
    by code_simp
  moreover have "extract_experience_and_skills_github
      (PyStr ''3 years experience, 5+ years of experience preferred'') =
      Inr (''3 years experience'', [])"
    by code_simp
  ultimately have "sublist ''5+ years of experience'' ''3 years experience''"
    using a by blast
  moreover have "\<not> sublist ''5+ years of experience'' ''3 years experience''"
    by code_simp
  ultimately show False by blast
qed

section \<open>The seniority pattern\<close>

lemma lower_parts: "str_lower (a @ b) = a @ b \<Longrightarrow> str_lower a = a \<and> str_lower b = b"
  by (simp add: str_lower_def)

lemma str_accepts:
  assumes "[] \<in> set (rests (Str w) m)" and "str_lower m = m" and "str_lower w = w"
  shows "m = w"
proof -
  from assms(1) have p: "ci_prefix w m" and "drop (length w) m = []"
    by (auto split: if_splits)
  with ci_prefix_length [OF p] have "take (length w) m = m" by simp
  with ci_prefix_lower [OF p] assms(2,3) show ?thesis by simp
qed

lemma rests_Str: "x \<in> set (rests (Str w) s) \<longleftrightarrow> ci_prefix w s \<and> x = drop (length w) s"
  by auto

lemma entry_accepts:
  assumes "[] \<in> set (rests pat_entry_level m)" and low: "str_lower m = m"
  shows "\<exists>ws. (\<forall>c\<in>set ws. is_space c) \<and> m = ''entry'' @ ws @ ''level''"
proof -
  let ?n = "length ''entry''"
  from assms(1) obtain mid1 mid2 where
    m1: "mid1 \<in> set (rests (Str ''entry'') m)" and m2: "mid2 \<in> set (star_rests Space mid1)"
    and m3: "[] \<in> set (rests (Str ''level'') mid2)"
    unfolding pat_entry_level_def rests.simps(6) rests.simps(3) by auto
  from m1 [unfolded rests_Str] have p: "ci_prefix ''entry'' m" and d: "mid1 = drop ?n m"
    by blast+
  from star_rests_split [OF m2] obtain ws where ws: "mid1 = ws @ mid2" "\<forall>c\<in>set ws. cmatch Space c"
    by blast
  have m: "m = take ?n m @ ws @ mid2" using d ws(1) by (metis append_take_drop_id)
  with low have "str_lower (take ?n m @ ws @ mid2) = take ?n m @ ws @ mid2" by simp
  then have l1: "str_lower (take ?n m) = take ?n m" and l2: "str_lower mid2 = mid2"
    using lower_parts by blast+
  have e: "str_lower ''entry'' = ''entry''" and l: "str_lower ''level'' = ''level''"
    by code_simp+
  from ci_prefix_lower [OF p] l1 e have "take ?n m = ''entry''" by (simp only:)
  moreover from str_accepts [OF m3 l2 l] have "mid2 = ''level''" .
  ultimately have "m = ''entry'' @ ws @ ''level''" using m by (simp only:)
  with ws(2) show ?thesis by auto
qed

lemma match_here_accepts:
  assumes "match_here r u = Some m"
  shows "[] \<in> set (rests r m) \<and> prefix m u"
proof -
  from assms obtain rest others where r: "rests r u = rest # others"
    and m: "m = take (length u - length rest) u"
    by (auto simp: match_here_def split: list.splits)
  then have "rest \<in> set (rests r u)" by simp
  from rests_split [OF this] obtain m' where m': "u = m' @ rest" "\<forall>y. y \<in> set (rests r (m' @ y))"
    by blast
  with m have "m = m'" by simp
  with m' show ?thesis by (metis append_Nil2 prefixI)
qed

lemma seniority_github_words:
  assumes "match_here pat_seniority_github u = Some m" and "str_lower u = u"
  shows "m \<in> {''junior'', ''senior'', ''principal'', ''lead''}
     \<or> (\<exists>ws. (\<forall>c\<in>set ws. is_space c) \<and> m = ''entry'' @ ws @ ''level'')"
proof -
  from match_here_accepts [OF assms(1)] have a: "[] \<in> set (rests pat_seniority_github m)"
    and "prefix m u" by blast+
  with assms(2) have low: "str_lower m = m"
    by (auto simp: prefix_def dest: lower_parts)
  have w: "str_lower ''junior'' = ''junior''" "str_lower ''senior'' = ''senior''"
    "str_lower ''principal'' = ''principal''" "str_lower ''lead'' = ''lead''"
    by code_simp+
  from a consider "[] \<in> set (rests pat_entry_level m)" | "[] \<in> set (rests (Str ''junior'') m)"
    | "[] \<in> set (rests (Str ''senior'') m)" | "[] \<in> set (rests (Str ''principal'') m)"
    | "[] \<in> set (rests (Str ''lead'') m)"
    unfolding pat_seniority_github_def rests.simps(7) set_append by blast
  then show ?thesis
  proof cases
    case 1
    from entry_accepts [OF this low] show ?thesis by blast
  next
    case 2
    from str_accepts [OF this low w(1)] show ?thesis by simp
  next
    case 3
    from str_accepts [OF this low w(2)] show ?thesis by simp
  next
    case 4
    from str_accepts [OF this low w(3)] show ?thesis by simp
  next
    case 5
    from str_accepts [OF this low w(4)] show ?thesis by simp
  qed
qed

lemma suffix_lower: "suffix u l \<Longrightarrow> str_lower l = l \<Longrightarrow> str_lower u = u"
  by (auto simp: suffix_def dest: lower_parts)

lemma lead_found:
  assumes "sublist ''lead'' l"
  shows "\<exists>u. suffix u l \<and> rests (Str ''lead'') u \<noteq> []"
proof -
  from assms obtain a b where "l = a @ ''lead'' @ b" by (auto simp: sublist_def)
  then have "suffix (''lead'' @ b) l" by (simp add: suffix_def)
  moreover have "rests (Str ''lead'') (''lead'' @ b) \<noteq> []" by simp
  ultimately show ?thesis by blast
qed

lemma github_rests_parts:
  "rests pat_seniority_github u =
     rests pat_entry_level u @ rests (Str ''junior'') u @ rests (Str ''senior'') u
       @ rests (Str ''principal'') u @ rests (Str ''lead'') u"
  unfolding pat_seniority_github_def rests.simps(7) by simp

lemma seniority_github_found:
  assumes "sublist ''lead'' l"
  shows "\<exists>m ms. findall pat_seniority_github l = m # ms"
proof -
  from lead_found [OF assms] obtain u where "suffix u l" "rests (Str ''lead'') u \<noteq> []"
    by blast
  then have "suffix u l \<and> rests pat_seniority_github u \<noteq> []"
    unfolding github_rests_parts by simp
  then have "findall_from pat_seniority_github 0 l \<noteq> []"
    using findall_from_empty by blast
  then show ?thesis by (simp add: findall_def neq_Nil_conv)
qed

lemma findall_head_match:
  assumes "findall r l = m # ms"
  shows "\<exists>v. suffix v l \<and> match_here r v = Some m"
proof -
  from assms have "m \<in> set (findall_from r 0 l)" by (simp add: findall_def)
  then show ?thesis by (rule findall_from_match)
qed

lemma seniority_github_head:
  assumes f: "findall pat_seniority_github l = m # ms" and low: "str_lower l = l"
  shows "[] \<in> set (rests pat_seniority_github m)"
    and "m \<in> {''junior'', ''senior'', ''principal'', ''lead''}
       \<or> (\<exists>ws. (\<forall>c\<in>set ws. is_space c) \<and> m = ''entry'' @ ws @ ''level'')"
proof -
  from findall_head_match [OF f] obtain v where
    v: "suffix v l" "match_here pat_seniority_github v = Some m" by blast
  from match_here_accepts [OF v(2)] show "[] \<in> set (rests pat_seniority_github m)" by blast
  from seniority_github_words [OF v(2) suffix_lower [OF v(1) low]]
  show "m \<in> {''junior'', ''senior'', ''principal'', ''lead''}
       \<or> (\<exists>ws. (\<forall>c\<in>set ws. is_space c) \<and> m = ''entry'' @ ws @ ''level'')" .
qed

lemma only_lead:
  assumes s: "sublist ''lead'' l" and low: "str_lower l = l"
    and none: "findall pat_entry_level l = []" "findall (Str ''junior'') l = []"
      "findall (Str ''senior'') l = []" "findall (Str ''principal'') l = []"
  shows "\<exists>ms. findall pat_seniority_github l = ''lead'' # ms"
proof -
  from none have "\<forall>u. suffix u l \<longrightarrow> rests pat_entry_level u = [] \<and> rests (Str ''junior'') u = []
      \<and> rests (Str ''senior'') u = [] \<and> rests (Str ''principal'') u = []"
    using findall_from_empty by (simp add: findall_def)
  then have "\<forall>u. suffix u l \<longrightarrow> match_here pat_seniority_github u = match_here (Str ''lead'') u"
    by (simp add: match_here_def github_rests_parts)
  then have eq: "findall pat_seniority_github l = findall (Str ''lead'') l"
    unfolding findall_def by (rule findall_from_cong)
  from seniority_github_found [OF s] obtain m ms where
    f: "findall pat_seniority_github l = m # ms" by blast
  with eq have "findall (Str ''lead'') l = m # ms" by simp
  from findall_head_match [OF this] obtain v where
    v: "suffix v l" "match_here (Str ''lead'') v = Some m" by blast
  from match_here_accepts [OF v(2)] have a: "[] \<in> set (rests (Str ''lead'') m)" and "prefix m v"
    by blast+
  with suffix_lower [OF v(1) low] have "str_lower m = m"
    by (auto simp: prefix_def dest: lower_parts)
  moreover have "str_lower ''lead'' = ''lead''" by code_simp
  ultimately have "m = ''lead''" using str_accepts [OF a] by blast
  with f show ?thesis by blast
qed

lemma lead_in_lower:
  assumes "sublist ''lead'' t \<or> sublist ''lead'' (str_lower t)"
  shows "sublist ''lead'' (str_lower t)"
proof -
  have "str_lower ''lead'' = ''lead''" by code_simp
  with assms sublist_str_lower [of "''lead''" t] show ?thesis by auto
qed

lemma github_after_numeric:
  assumes "findall pat_years_experience l = []" "findall pat_minimum_years l = []"
    "findall pat_range_years l = []" "findall pat_seniority_github l = m # ms"
  shows "first_experience experience_patterns_github l = m"
  using assms by (simp add: experience_patterns_github_def)

lemma seniority_after_numeric:
  "findall pat_years_experience (str_lower t) = []
   \<and> findall pat_minimum_years (str_lower t) = []
   \<and> findall pat_range_years (str_lower t) = []
   \<and> (sublist ''lead'' t \<or> sublist ''lead'' (str_lower t)) \<longrightarrow>
     (\<exists>m ms sk. findall pat_seniority_github (str_lower t) = m # ms
        \<and> extract_experience_and_skills_github (PyStr t) = Inr (m, sk)
        \<and> [] \<in> set (rests pat_seniority_github m)
        \<and> ((\<forall>c\<in>set m. of_char c < (128::nat)) \<longrightarrow>
             m \<in> {''junior'', ''senior'', ''principal'', ''lead''}
             \<or> (\<exists>ws. (\<forall>c\<in>set ws. is_space c) \<and> m = ''entry'' @ ws @ ''level'')))
     \<and> (findall pat_entry_level (str_lower t) = []
         \<and> findall (Str ''junior'') (str_lower t) = []
         \<and> findall (Str ''senior'') (str_lower t) = []
         \<and> findall (Str ''principal'') (str_lower t) = [] \<longrightarrow>
          (\<exists>sk. extract_experience_and_skills_github (PyStr t) = Inr (''lead'', sk)))"
proof (intro impI conjI; (elim conjE)?)
  assume n: "findall pat_years_experience (str_lower t) = []"
    "findall pat_minimum_years (str_lower t) = []"
    "findall pat_range_years (str_lower t) = []"
    and "sublist ''lead'' t \<or> sublist ''lead'' (str_lower t)"
  then have s: "sublist ''lead'' (str_lower t)" by (intro lead_in_lower)
  from seniority_github_found [OF s] obtain m ms where
    f: "findall pat_seniority_github (str_lower t) = m # ms" by blast
  from github_after_numeric [OF n f] f seniority_github_head [OF f str_lower_idem]
  show "\<exists>m ms sk. findall pat_seniority_github (str_lower t) = m # ms
        \<and> extract_experience_and_skills_github (PyStr t) = Inr (m, sk)
        \<and> [] \<in> set (rests pat_seniority_github m)
        \<and> ((\<forall>c\<in>set m. of_char c < (128::nat)) \<longrightarrow>
             m \<in> {''junior'', ''senior'', ''principal'', ''lead''}
             \<or> (\<exists>ws. (\<forall>c\<in>set ws. is_space c) \<and> m = ''entry'' @ ws @ ''level''))"
    unfolding extract_github_eq by blast
next
  assume n: "findall pat_years_experience (str_lower t) = []"
    "findall pat_minimum_years (str_lower t) = []"
    "findall pat_range_years (str_lower t) = []"
    and l: "sublist ''lead'' t \<or> sublist ''lead'' (str_lower t)"
    and o: "findall pat_entry_level (str_lower t) = []"
      "findall (Str ''junior'') (str_lower t) = []"
      "findall (Str ''senior'') (str_lower t) = []"
      "findall (Str ''principal'') (str_lower t) = []"
  from l have s: "sublist ''lead'' (str_lower t)" by (intro lead_in_lower)
  from only_lead [OF s str_lower_idem o] obtain ms where
    f: "findall pat_seniority_github (str_lower t) = ''lead'' # ms" by blast
  from github_after_numeric [OF n f]
  show "\<exists>sk. extract_experience_and_skills_github (PyStr t) = Inr (''lead'', sk)"
    unfolding extract_github_eq by blast
qed

text \<open>
  Claim C7, amended. In \<open>scrape_jobs_github.py\<close> the fourth pattern is
  \<open>(entry\s*level|junior|senior|principal|lead)\<close>, matched without regard to case. For
  every text that matches none of the three numeric patterns and contains \<open>lead\<close> in
  any capitalisation, the experience is the leftmost match of this pattern in the
  lower-cased text. A match made of ASCII characters is one of \<open>junior\<close>, \<open>senior\<close>,
  \<open>principal\<close>, \<open>lead\<close>, or \<open>entry\<close> and \<open>level\<close> with any run of whitespace, or
  none, between them. The experience is \<open>lead\<close> when none of the other four
  alternatives has a match in the lower-cased text. On a text that lists all the words
  the pattern finds each of them, and \<open>entrylevel\<close> too.
\<close>

theorem seniority_after_numeric_patterns:
  "(findall pat_years_experience (str_lower t) = []
    \<and> findall pat_minimum_years (str_lower t) = []
    \<and> findall pat_range_years (str_lower t) = []
    \<and> (sublist ''lead'' t \<or> sublist ''lead'' (str_lower t)) \<longrightarrow>
      (\<exists>m ms sk. findall pat_seniority_github (str_lower t) = m # ms
         \<and> extract_experience_and_skills_github (PyStr t) = Inr (m, sk)
         \<and> [] \<in> set (rests pat_seniority_github m)
         \<and> ((\<forall>c\<in>set m. of_char c < (128::nat)) \<longrightarrow>
              m \<in> {''junior'', ''senior'', ''principal'', ''lead''}
              \<or> (\<exists>ws. (\<forall>c\<in>set ws. is_space c) \<and> m = ''entry'' @ ws @ ''level'')))
      \<and> (findall pat_entry_level (str_lower t) = []
          \<and> findall (Str ''junior'') (str_lower t) = []
          \<and> findall (Str ''senior'') (str_lower t) = []
          \<and> findall (Str ''principal'') (str_lower t) = [] \<longrightarrow>
           (\<exists>sk. extract_experience_and_skills_github (PyStr t) = Inr (''lead'', sk))))
   \<and> findall pat_seniority_github ''entry level, junior, senior, principal, lead, entrylevel'' =
        [''entry level'', ''junior'', ''senior'', ''principal'', ''lead'', ''entrylevel'']"
proof -
  have "findall pat_seniority_github ''entry level, junior, senior, principal, lead, entrylevel'' =
        [''entry level'', ''junior'', ''senior'', ''principal'', ''lead'', ''entrylevel'']"
    by code_simp
  with seniority_after_numeric [of t] show ?thesis by blast
qed

theorem seniority_after_numeric_patterns_witness:
  "findall pat_years_experience (str_lower ''Team Lead, Platform'') = []
   \<and> findall pat_minimum_years (str_lower ''Team Lead, Platform'') = []
   \<and> findall pat_range_years (str_lower ''Team Lead, Platform'') = []
   \<and> sublist ''lead'' (str_lower ''Team Lead, Platform'')
   \<and> findall pat_entry_level (str_lower ''Team Lead, Platform'') = []
   \<and> findall (Str ''junior'') (str_lower ''Team Lead, Platform'') = []
   \<and> findall (Str ''senior'') (str_lower ''Team Lead, Platform'') = []
   \<and> findall (Str ''principal'') (str_lower ''Team Lead, Platform'') = []
   \<and> list_all (\<lambda>c. of_char c < (128::nat)) ''lead''
   \<and> findall pat_seniority_github (str_lower ''Team Lead, Platform'') = [''lead'']
   \<and> extract_experience_and_skills_github (PyStr ''Team Lead, Platform'') = Inr (''lead'', [])"
proof -
  have n: "findall pat_years_experience (str_lower ''Team Lead, Platform'') = []"
    "findall pat_minimum_years (str_lower ''Team Lead, Platform'') = []"
    "findall pat_range_years (str_lower ''Team Lead, Platform'') = []"
    "findall pat_entry_level (str_lower ''Team Lead, Platform'') = []"
    "findall (Str ''junior'') (str_lower ''Team Lead, Platform'') = []"
    "findall (Str ''senior'') (str_lower ''Team Lead, Platform'') = []"
    "findall (Str ''principal'') (str_lower ''Team Lead, Platform'') = []"
    by code_simp+
  have s: "sublist ''lead'' (str_lower ''Team Lead, Platform'')" by code_simp
  have a: "list_all (\<lambda>c. of_char c < (128::nat)) ''lead''" by simp
  have f: "findall pat_seniority_github (str_lower ''Team Lead, Platform'') = [''lead'']"
    by code_simp
  have g: "extract_experience_and_skills_github (PyStr ''Team Lead, Platform'') = Inr (''lead'', [])"
    by code_simp
  from seniority_after_numeric_patterns [of "''Team Lead, Platform''"] n s a f g
  show ?thesis by blast
qed

text \<open>
  Claim C7 as stated fails: the text \<open>senior lead engineer\<close> matches none of the
  numeric patterns and contains \<open>lead\<close>, and its experience is \<open>senior\<close>, the
  leftmost seniority word.
\<close>

theorem lead_not_always_reported_counterexample:
  "\<not> (\<forall>t e sk. findall pat_years_experience (str_lower t) = []
          \<and> findall pat_minimum_years (str_lower t) = []
          \<and> findall pat_range_years (str_lower t) = []
          \<and> sublist ''lead'' t \<longrightarrow>
          extract_experience_and_skills_github (PyStr t) = Inr (e, sk) \<longrightarrow> e = ''lead'')"
proof
  assume a: "\<forall>t e sk. findall pat_years_experience (str_lower t) = []
          \<and> findall pat_minimum_years (str_lower t) = []
          \<and> findall pat_range_years (str_lower t) = []
          \<and> sublist ''lead'' t \<longrightarrow>
          extract_experience_and_skills_github (PyStr t) = Inr (e, sk) \<longrightarrow> e = ''lead''"
  have "findall pat_years_experience (str_lower ''senior lead engineer'') = []"
    "findall pat_minimum_years (str_lower ''senior lead engineer'') = []"
    "findall pat_range_years (str_lower ''senior lead engineer'') = []"
    "sublist ''lead'' ''senior lead engineer''"
    "extract_experience_and_skills_github (PyStr ''senior lead engineer'') = Inr (''senior'', [])"
    by code_simp+
  with a have "''senior'' = ''lead''" by blast
  then show False by simp
qed

end
